theory Spec2Isabelle
  imports Complex_Main "HOL-Library.Sublist"
begin

section \<open>The GitHub service: data model\<close>

text \<open>
  The service (\<^verbatim>\<open>GithubService\<close>) polls a REST API and posts one image comment on
  every pull request the configured user approved in the last five minutes.
  JavaScript strings are modelled as \<^typ>\<open>string\<close>, a field that may be
  \<^verbatim>\<open>undefined\<close> as an option, a rejected promise as \<open>Inl\<close> of the error, an
  instant as its number of milliseconds since the epoch.
\<close>

record PullRequest =
  html_url :: "string option"
  repository_url :: "string option"
  number :: int

record User =
  login :: string

record Review =
  state :: string
  user :: User
  submitted_at :: string

record Comment =
  body :: string

record Event =
  event :: string
  state :: string
  actor :: User
  created_at :: string

text \<open>What a \<^verbatim>\<open>catch (error)\<close> of the service reads of a failed request:
  \<^verbatim>\<open>error.response?.status\<close> (absent when there was no response) and
  \<^verbatim>\<open>error.message\<close>.\<close>

record Error =
  status :: "nat option"
  message :: string

definition NOT_FOUND :: nat where
  "NOT_FOUND = 404"

text \<open>The configuration read from the process environment at construction:
  \<^verbatim>\<open>GITHUB_NAME\<close> (which may be unset) and the list \<^verbatim>\<open>GITHUB_ORGS\<close> splits into.\<close>

record Config =
  username :: "string option"
  orgs :: "string list"

text \<open>
  Everything outside the process that one polling cycle reads: the response of every
  endpoint (the value of \<^verbatim>\<open>response.data\<close>, or the error \<^verbatim>\<open>axios\<close> rejects with),
  the clock (\<^verbatim>\<open>new Date()\<close>), the values of \<^verbatim>\<open>Math.random()\<close> (the one drawn for
  the pull request at a position of the list), and the library function
  \<^verbatim>\<open>parseISO\<close>, whose result is \<open>None\<close> for an Invalid Date.
\<close>

record Env =
  search_issues :: "Error + PullRequest list"
  pulls :: "string \<Rightarrow> Error + PullRequest list"
  reviews :: "string \<Rightarrow> Error + Review list"
  events :: "string \<Rightarrow> int \<Rightarrow> Error + Event list"
  comments :: "string \<Rightarrow> int \<Rightarrow> Error + Comment list"
  post_comment :: "string \<Rightarrow> int \<Rightarrow> string \<Rightarrow> Error + unit"
  now :: int
  random :: "nat \<Rightarrow> real"
  parseISO :: "string \<Rightarrow> int option"

text \<open>A \<^verbatim>\<open>POST\<close> to the comments endpoint of a pull request, as the effect the
  service has on the outside.\<close>

record Post =
  post_repo :: string
  post_number :: int
  post_body :: string

text \<open>The mutable field of the service: the \<^verbatim>\<open>Set\<close> \<^verbatim>\<open>approvedRepos\<close>, as the list
  of its elements in insertion order (the order \<^verbatim>\<open>Array.from\<close> reads them in).\<close>

record Service =
  approvedRepos :: "string list"

definition new_Service :: Service where
  "new_Service = \<lparr>approvedRepos = []\<rparr>"

definition memeUrls :: "string list" where
  "memeUrls =
    [''https://media.makeameme.org/created/pr-approved-seeing.jpg'',
     ''https://www.memecreator.org/static/images/memes/5595060.jpg'',
     ''https://media.makeameme.org/created/you-get-approved-a0fd4c37ee.jpg'',
     ''http://www.quickmeme.com/img/17/17960076ed8eb9b005747677c781d58cfe237f192c0f0e4e243cd73bd789b3fc.jpg'',
     ''https://i.imgflip.com/8qwq96.jpg'',
     ''https://www.meme-arsenal.com/memes/cba08ac9b63f603c1f30495a45967708.jpg'',
     ''https://media.makeameme.org/created/i-got-you-b6b9066329.jpg'',
     ''https://i.pinimg.com/564x/e0/b9/32/e0b932da2b84a6bc012af9b9a5774087.jpg'']"

section \<open>String and date primitives\<close>

text \<open>\<^verbatim>\<open>!s\<close> for a string that may be undefined: undefined and the empty string are
  falsy.\<close>

definition truthy :: "string option \<Rightarrow> bool" where
  "truthy s = (case s of None \<Rightarrow> False | Some v \<Rightarrow> v \<noteq> [])"

text \<open>\<^verbatim>\<open>s.startsWith(p)\<close>.\<close>

definition startsWith :: "string \<Rightarrow> string \<Rightarrow> bool" where
  "startsWith s p = prefix p s"

text \<open>\<^verbatim>\<open>s.includes(sub)\<close>: \<open>sub\<close> occurs in \<open>s\<close> at some position.\<close>

fun includes_str :: "string \<Rightarrow> string \<Rightarrow> bool" where
  "includes_str [] sub = (sub = [])"
| "includes_str (c # cs) sub = (prefix sub (c # cs) \<or> includes_str cs sub)"

text \<open>\<^verbatim>\<open>s.replace(pat, rep)\<close> with a string pattern: the first occurrence of \<open>pat\<close>
  is replaced, the rest of \<open>s\<close> is kept; \<open>s\<close> is returned as it is when \<open>pat\<close> does
  not occur. (The replacement of the service is the empty string, so that the
  \<^verbatim>\<open>$\<close> patterns of a replacement never matter.)\<close>

fun replace :: "string \<Rightarrow> string \<Rightarrow> string \<Rightarrow> string" where
  "replace [] pat rep = (if pat = [] then rep else [])"
| "replace (c # cs) pat rep =
     (if prefix pat (c # cs) then rep @ drop (length pat) (c # cs)
      else c # replace cs pat rep)"

text \<open>\<^verbatim>\<open>subMinutes(date, amount)\<close> and \<^verbatim>\<open>isAfter(date, dateToCompare)\<close> of date-fns, on
  milliseconds; the comparison with an Invalid Date is false.\<close>

definition subMinutes :: "int \<Rightarrow> int \<Rightarrow> int" where
  "subMinutes date amount = date - amount * 60000"

definition isAfter :: "int option \<Rightarrow> int \<Rightarrow> bool" where
  "isAfter date dateToCompare =
     (case date of None \<Rightarrow> False | Some t \<Rightarrow> dateToCompare < t)"

text \<open>The repository identifier of a repository reference, as lines 65, 131 and 169
  compute it.\<close>

definition repoFullNameOf :: "string \<Rightarrow> string" where
  "repoFullNameOf url = replace url ''https://api.github.com/repos/'' []"

section \<open>The operations of the service\<close>

text \<open>\<^verbatim>\<open>Set.add\<close> on the insertion-ordered list.\<close>

definition set_add :: "string \<Rightarrow> string list \<Rightarrow> string list" where
  "set_add x xs = (if x \<in> set xs then xs else xs @ [x])"

text \<open>The body of the \<^verbatim>\<open>forEach\<close> of \<^verbatim>\<open>trackApprovedRepositories\<close>.\<close>

definition trackOne :: "string list \<Rightarrow> PullRequest \<Rightarrow> string list" where
  "trackOne repos pr =
     (if truthy (repository_url pr)
      then (case repository_url pr of
              Some u \<Rightarrow> set_add (repoFullNameOf u) repos
            | None \<Rightarrow> repos)
      else repos)"

text \<open>\<^verbatim>\<open>trackApprovedRepositories\<close>: a failed search rejects before the set is touched;
  otherwise every hit is added to the set the service already holds.\<close>

definition trackApprovedRepositories :: "Env \<Rightarrow> Service \<Rightarrow> Error + Service" where
  "trackApprovedRepositories env s =
     (case search_issues env of
        Inl e \<Rightarrow> Inl e
      | Inr items \<Rightarrow> Inr (s\<lparr>approvedRepos := foldl trackOne (approvedRepos s) items\<rparr>))"

text \<open>\<^verbatim>\<open>getPullRequestsForRepos\<close>: \<^verbatim>\<open>Promise.all\<close> rejects as soon as one request
  does, and otherwise yields the responses in the order of the input, which
  \<^verbatim>\<open>flat()\<close> concatenates. Of several failures the model reports the first in list
  order.\<close>

fun getPullRequestsForRepos :: "Env \<Rightarrow> string list \<Rightarrow> Error + PullRequest list" where
  "getPullRequestsForRepos env [] = Inr []"
| "getPullRequestsForRepos env (repoFullName # rest) =
     (case pulls env repoFullName of
        Inl e \<Rightarrow> Inl e
      | Inr prs \<Rightarrow>
          (case getPullRequestsForRepos env rest of
             Inl e \<Rightarrow> Inl e
           | Inr others \<Rightarrow> Inr (prs @ others)))"

text \<open>The organization filter of lines 106 to 108.\<close>

definition passesOrgFilter :: "Config \<Rightarrow> string \<Rightarrow> bool" where
  "passesOrgFilter cfg repoFullName =
     list_ex (\<lambda>org. startsWith repoFullName (org @ ''/'')) (orgs cfg)"

text \<open>\<^verbatim>\<open>getPullRequestReviews\<close>, with both branches of its \<^verbatim>\<open>catch\<close>.\<close>

definition getPullRequestReviews :: "Env \<Rightarrow> string option \<Rightarrow> Error + Review list" where
  "getPullRequestReviews env pullRequestUrl =
     (if \<not> truthy pullRequestUrl then Inr []
      else (case pullRequestUrl of
              None \<Rightarrow> Inr []
            | Some url \<Rightarrow>
                (case reviews env url of
                   Inr data \<Rightarrow> Inr data
                 | Inl error \<Rightarrow>
                     (if status error = Some NOT_FOUND then Inr [] else Inr []))))"

text \<open>\<^verbatim>\<open>getPullRequestEvents\<close>: the \<^verbatim>\<open>reviewed\<close> events as review records.\<close>

definition getPullRequestEvents :: "Env \<Rightarrow> string \<Rightarrow> int \<Rightarrow> Error + Review list" where
  "getPullRequestEvents env repoFullName pullNumber =
     (case events env repoFullName pullNumber of
        Inr data \<Rightarrow>
          Inr (map (\<lambda>ev. \<lparr>Review.state = Event.state ev, user = actor ev,
                           submitted_at = created_at ev\<rparr>)
                 (filter (\<lambda>ev. event ev = ''reviewed'') data))
      | Inl error \<Rightarrow> Inr [])"

text \<open>\<^verbatim>\<open>getPullRequestComments\<close>.\<close>

definition getPullRequestComments :: "Env \<Rightarrow> string \<Rightarrow> int \<Rightarrow> Error + Comment list" where
  "getPullRequestComments env repoFullName pullNumber =
     (case comments env repoFullName pullNumber of
        Inr data \<Rightarrow> Inr data
      | Inl error \<Rightarrow> Inr [])"

text \<open>\<^verbatim>\<open>getRandomMeme\<close> on the value \<open>r\<close> of \<^verbatim>\<open>Math.random()\<close>; an index outside the
  array reads \<^verbatim>\<open>undefined\<close>.\<close>

definition getRandomMeme :: "real \<Rightarrow> string option" where
  "getRandomMeme r =
     (let randomIndex = \<lfloor>r * real (length memeUrls)\<rfloor>
      in if 0 \<le> randomIndex \<and> randomIndex < int (length memeUrls)
         then Some (memeUrls ! nat randomIndex) else None)"

text \<open>\<^verbatim>\<open>addMemeComment\<close>: the requests it issues and how it settles. A rejected
  \<^verbatim>\<open>POST\<close> is caught and logged.\<close>

definition addMemeComment :: "Env \<Rightarrow> string \<Rightarrow> int \<Rightarrow> string \<Rightarrow> Post list \<times> (Error + unit)" where
  "addMemeComment env repoFullName pullNumber memeUrl =
     (let request = \<lparr>post_repo = repoFullName, post_number = pullNumber,
                      post_body = ''![Meme]('' @ memeUrl @ '')''\<rparr>
      in case post_comment env repoFullName pullNumber (post_body request) of
           Inr ok \<Rightarrow> ([request], Inr ())
         | Inl error \<Rightarrow> ([request], Inr ()))"

text \<open>Promise chaining: \<^verbatim>\<open>p.then(f)\<close> runs \<open>f\<close> on a fulfilled value and passes a
  rejection on; \<^verbatim>\<open>p.catch(h)\<close> runs \<open>h\<close> on a rejection and passes a value on.\<close>

definition then_p :: "Error + 'a \<Rightarrow> ('a \<Rightarrow> Error + 'b) \<Rightarrow> Error + 'b" where
  "then_p p f = (case p of Inl e \<Rightarrow> Inl e | Inr v \<Rightarrow> f v)"

definition catch_p :: "Error + 'a \<Rightarrow> (Error \<Rightarrow> Error + 'a) \<Rightarrow> Error + 'a" where
  "catch_p p h = (case p of Inl e \<Rightarrow> h e | Inr v \<Rightarrow> Inr v)"

text \<open>A method call on \<^verbatim>\<open>undefined\<close> throws a \<^verbatim>\<open>TypeError\<close>, which carries no
  response.\<close>

definition TypeError :: Error where
  "TypeError = \<lparr>status = None, message = ''TypeError''\<rparr>"

text \<open>The handler of the \<^verbatim>\<open>.catch\<close> of lines 139 to 147.\<close>

definition reviewsCatch :: "Error \<Rightarrow> Error + Review list" where
  "reviewsCatch error = (if status error = Some NOT_FOUND then Inr [] else Inl error)"

text \<open>Lines 127 to 147 of \<^verbatim>\<open>checkApprovedPRs\<close>: the reviews of a pull request, or
  the records made of its events when there is no review.\<close>

definition reviewsOrEvents :: "Env \<Rightarrow> PullRequest \<Rightarrow> Error + Review list" where
  "reviewsOrEvents env pr =
     catch_p
       (then_p (getPullRequestReviews env (html_url pr))
          (\<lambda>rev. if length rev = 0
                 then (case repository_url pr of
                         None \<Rightarrow> Inl TypeError
                       | Some u \<Rightarrow> getPullRequestEvents env (repoFullNameOf u) (number pr))
                 else Inr rev))
       reviewsCatch"

text \<open>The predicate of the \<^verbatim>\<open>reviews.find\<close> of lines 153 to 158.\<close>

definition isRecentApproval :: "Config \<Rightarrow> Env \<Rightarrow> int \<Rightarrow> Review \<Rightarrow> bool" where
  "isRecentApproval cfg env fiveMinutesAgo review =
     (Review.state review = ''APPROVED'' \<and>
      Some (login (user review)) = username cfg \<and>
      isAfter (parseISO env (submitted_at review)) fiveMinutesAgo)"

text \<open>The duplicate test of lines 179 to 181.\<close>

definition memeAlreadyPosted :: "Comment list \<Rightarrow> bool" where
  "memeAlreadyPosted cs =
     list_ex (\<lambda>memeUrl. list_ex (\<lambda>comment. includes_str (body comment) memeUrl) cs) memeUrls"

text \<open>The \<^verbatim>\<open>try\<close> block of the callback of lines 115 to 195, for one pull request:
  the requests it posts and how it ends. \<open>r\<close> is what \<^verbatim>\<open>Math.random()\<close> returns
  should the block reach it; an undefined meme prints as \<^verbatim>\<open>undefined\<close> in the
  template of the body.\<close>

definition processPRBody ::
  "Config \<Rightarrow> Env \<Rightarrow> int \<Rightarrow> real \<Rightarrow> PullRequest \<Rightarrow> Post list \<times> (Error + unit)" where
  "processPRBody cfg env fiveMinutesAgo r pr =
     (case reviewsOrEvents env pr of
        Inl e \<Rightarrow> ([], Inl e)
      | Inr revs \<Rightarrow>
          (case find (isRecentApproval cfg env fiveMinutesAgo) revs of
             None \<Rightarrow> ([], Inr ())
           | Some approvedReview \<Rightarrow>
               (case repository_url pr of
                  None \<Rightarrow> ([], Inl TypeError)
                | Some u \<Rightarrow>
                    (let repoFullName = repoFullNameOf u in
                     case getPullRequestComments env repoFullName (number pr) of
                       Inl e \<Rightarrow> ([], Inl e)
                     | Inr cs \<Rightarrow>
                         if memeAlreadyPosted cs then ([], Inr ())
                         else addMemeComment env repoFullName (number pr)
                                (case getRandomMeme r of
                                   Some memeUrl \<Rightarrow> memeUrl
                                 | None \<Rightarrow> ''undefined'')))))"

text \<open>The whole callback: the guard on the reference fields, then the \<^verbatim>\<open>try\<close> block,
  whose error the \<^verbatim>\<open>catch\<close> of line 190 logs.\<close>

definition processPR ::
  "Config \<Rightarrow> Env \<Rightarrow> int \<Rightarrow> real \<Rightarrow> PullRequest \<Rightarrow> Post list \<times> (Error + unit)" where
  "processPR cfg env fiveMinutesAgo r pr =
     (if \<not> truthy (html_url pr) \<or> \<not> truthy (repository_url pr) then ([], Inr ())
      else (case processPRBody cfg env fiveMinutesAgo r pr of
              (posts, Inl error) \<Rightarrow> (posts, Inr ())
            | (posts, Inr ok) \<Rightarrow> (posts, Inr ())))"

text \<open>\<^verbatim>\<open>Promise.all\<close> over the callbacks: it rejects with the first rejection in list
  order, and the requests of all callbacks are issued either way. The callbacks
  share no state, so their interleaving is left out: the requests are listed in
  the order of the pull requests.\<close>

fun all_p :: "(Post list \<times> (Error + unit)) list \<Rightarrow> Post list \<times> (Error + unit)" where
  "all_p [] = ([], Inr ())"
| "all_p ((posts, res) # rest) =
     (case all_p rest of
        (posts', res') \<Rightarrow>
          (posts @ posts', (case res of Inl e \<Rightarrow> Inl e | Inr ok \<Rightarrow> res')))"

text \<open>\<^verbatim>\<open>checkApprovedPRs\<close>, one polling cycle: how it settles, the service after it,
  and the requests it posted.\<close>

definition checkApprovedPRs ::
  "Config \<Rightarrow> Env \<Rightarrow> Service \<Rightarrow> (Error + unit) \<times> Service \<times> Post list" where
  "checkApprovedPRs cfg env s =
     (case trackApprovedRepositories env s of
        Inl e \<Rightarrow> (Inl e, s, [])
      | Inr s' \<Rightarrow>
          (let allRepos = filter (passesOrgFilter cfg) (approvedRepos s') in
           case getPullRequestsForRepos env allRepos of
             Inl e \<Rightarrow> (Inl e, s', [])
           | Inr repoPRs \<Rightarrow>
               (let fiveMinutesAgo = subMinutes (now env) 5 in
                case all_p (map (\<lambda>(i, pr). processPR cfg env fiveMinutesAgo (random env i) pr)
                              (enumerate 0 repoPRs)) of
                  (posts, res) \<Rightarrow> (res, s', posts))))"

text \<open>What the specification takes the repository set of a cycle to be: the
  identifiers of the search entries that have a non-empty repository reference.\<close>

definition searchRepoNames :: "PullRequest list \<Rightarrow> string set" where
  "searchRepoNames items =
     set (map repoFullNameOf
            (concat (map (\<lambda>pr. case repository_url pr of
                                  None \<Rightarrow> []
                                | Some u \<Rightarrow> if u = [] then [] else [u]) items)))"

section \<open>Example scenarios\<close>

text \<open>The end-to-end scenario of the specification: \<^verbatim>\<open>orgA/repo1\<close> has the open pull
  request 42, which the configured user approved one minute ago, and no comment.
  The other environments vary it.\<close>

definition example_pr :: PullRequest where
  "example_pr = \<lparr>html_url = Some ''https://github.com/orgA/repo1/pull/42'',
                  repository_url = Some ''https://api.github.com/repos/orgA/repo1'',
                  number = 42\<rparr>"

definition example_review :: Review where
  "example_review = \<lparr>Review.state = ''APPROVED'', user = \<lparr>login = ''me''\<rparr>,
                      submitted_at = ''2024-01-01T00:04:00Z''\<rparr>"

definition example_cfg :: Config where
  "example_cfg = \<lparr>username = Some ''me'', orgs = [''orgA'']\<rparr>"

definition example_env :: Env where
  "example_env =
     \<lparr>search_issues = Inr [example_pr],
      pulls = (\<lambda>repo. Inr (if repo = ''orgA/repo1'' then [example_pr] else [])),
      reviews = (\<lambda>url. Inr [example_review]),
      events = (\<lambda>repo n. Inr []),
      comments = (\<lambda>repo n. Inr []),
      post_comment = (\<lambda>repo n b. Inr ()),
      now = 1704067500000,
      random = (\<lambda>i. 1 / 2),
      parseISO = (\<lambda>s. if s = ''2024-01-01T00:04:00Z'' then Some 1704067440000 else None)\<rparr>"

definition example_post :: Post where
  "example_post = \<lparr>post_repo = ''orgA/repo1'', post_number = 42,
                    post_body = ''![Meme](https://i.imgflip.com/8qwq96.jpg)''\<rparr>"

definition second_pr :: PullRequest where
  "second_pr = \<lparr>html_url = Some ''https://github.com/orgB/repo2/pull/7'',
                 repository_url = Some ''https://api.github.com/repos/orgB/repo2'',
                 number = 7\<rparr>"

definition second_env :: Env where
  "second_env = example_env\<lparr>search_issues := Inr [second_pr], pulls := (\<lambda>repo. Inr [])\<rparr>"

definition example_events :: "Event list" where
  "example_events =
     [\<lparr>event = ''labeled'', Event.state = ''APPROVED'', actor = \<lparr>login = ''me''\<rparr>,
       created_at = ''2024-01-01T00:04:00Z''\<rparr>,
      \<lparr>event = ''reviewed'', Event.state = ''APPROVED'', actor = \<lparr>login = ''me''\<rparr>,
       created_at = ''2024-01-01T00:04:00Z''\<rparr>]"

definition fallback_env :: Env where
  "fallback_env = example_env\<lparr>reviews := (\<lambda>url. Inr []), events := (\<lambda>repo n. Inr example_events)\<rparr>"

definition notFound :: Error where
  "notFound = \<lparr>status = Some 404, message = ''Request failed with status code 404''\<rparr>"

definition serverError :: Error where
  "serverError = \<lparr>status = Some 500, message = ''Request failed with status code 500''\<rparr>"

definition failing_pulls_env :: Env where
  "failing_pulls_env =
     example_env\<lparr>pulls := (\<lambda>repo. if repo = ''orgA/repo2'' then Inl serverError
                                  else Inr [example_pr])\<rparr>"

definition failing_reviews_env :: Env where
  "failing_reviews_env = fallback_env\<lparr>reviews := (\<lambda>url. Inl serverError)\<rparr>"

definition boundary_env :: Env where
  "boundary_env =
     example_env\<lparr>parseISO := (\<lambda>s.
        if s = ''2024-01-01T00:00:00Z'' then Some 1704067200000
        else if s = ''2024-01-01T00:00:01Z'' then Some 1704067201000
        else if s = ''2023-12-31T23:59:59Z'' then Some 1704067199000
        else None)\<rparr>"

definition review_at :: "string \<Rightarrow> Review" where
  "review_at s = \<lparr>Review.state = ''APPROVED'', user = \<lparr>login = ''me''\<rparr>, submitted_at = s\<rparr>"






definition slash_cfg :: Config where
  "slash_cfg = \<lparr>username = Some ''me'', orgs = [''orgA/repo1'', ''orgB'']\<rparr>"

section \<open>Properties\<close>

lemma example_repo: "repoFullNameOf ''https://api.github.com/repos/orgA/repo1'' = ''orgA/repo1''"
  by (simp add: repoFullNameOf_def)

lemma example_meme: "getRandomMeme (1 / 2) = Some ''https://i.imgflip.com/8qwq96.jpg''"
  by (simp add: getRandomMeme_def memeUrls_def)

lemma example_track:
  "trackApprovedRepositories example_env new_Service = Inr \<lparr>approvedRepos = [''orgA/repo1'']\<rparr>"
  by (simp add: trackApprovedRepositories_def example_env_def new_Service_def trackOne_def
      example_pr_def truthy_def set_add_def example_repo)

lemma example_processPR:
  "processPR example_cfg example_env (subMinutes (now example_env) 5) (1 / 2) example_pr =
     ([\<lparr>post_repo = ''orgA/repo1'', post_number = 42,
        post_body = ''![Meme](https://i.imgflip.com/8qwq96.jpg)''\<rparr>], Inr ())"
  by (simp add: processPR_def processPRBody_def reviewsOrEvents_def getPullRequestReviews_def
      then_p_def catch_p_def example_pr_def example_env_def example_cfg_def example_review_def
      truthy_def isRecentApproval_def isAfter_def subMinutes_def example_repo
      getPullRequestComments_def memeAlreadyPosted_def memeUrls_def addMemeComment_def
      example_meme[simplified])

lemma example_cycle:
  "checkApprovedPRs example_cfg example_env new_Service =
     (Inr (), \<lparr>approvedRepos = [''orgA/repo1'']\<rparr>,
      [\<lparr>post_repo = ''orgA/repo1'', post_number = 42,
        post_body = ''![Meme](https://i.imgflip.com/8qwq96.jpg)''\<rparr>])"
  using example_processPR
  by (simp add: checkApprovedPRs_def example_track passesOrgFilter_def startsWith_def
      example_cfg_def enumerate_eq_zip)
     (simp add: example_env_def)

lemma getPullRequestReviews_cases:
  "getPullRequestReviews env url =
     (case url of
        None \<Rightarrow> Inr []
      | Some h \<Rightarrow> if h = [] then Inr []
                  else (case reviews env h of Inr data \<Rightarrow> Inr data | Inl e \<Rightarrow> Inr []))"
  by (simp add: getPullRequestReviews_def truthy_def split: option.splits sum.splits)

lemma getPullRequestReviews_Inr: "\<exists>revs. getPullRequestReviews env url = Inr revs"
  by (simp add: getPullRequestReviews_cases split: option.splits sum.splits)

lemma getPullRequestEvents_Inr: "\<exists>revs. getPullRequestEvents env repo n = Inr revs"
  by (simp add: getPullRequestEvents_def split: sum.splits)

lemma fst_all_p: "fst (all_p xs) = concat (map fst xs)"
  by (induction xs rule: all_p.induct) (auto split: prod.splits)

lemma snd_all_p: "\<forall>x \<in> set xs. snd x = Inr () \<Longrightarrow> snd (all_p xs) = Inr ()"
  by (induction xs rule: all_p.induct) (auto split: prod.splits)

lemma snd_processPR: "snd (processPR cfg env t r pr) = Inr ()"
  by (simp add: processPR_def split: prod.splits sum.splits)

lemma fst_addMemeComment:
  "fst (addMemeComment env repo n url) =
     [\<lparr>post_repo = repo, post_number = n, post_body = ''![Meme]('' @ url @ '')''\<rparr>]"
  by (simp add: addMemeComment_def Let_def split: sum.splits)

lemma snd_addMemeComment: "snd (addMemeComment env repo n url) = Inr ()"
  by (simp add: addMemeComment_def Let_def split: sum.splits)

lemma find_Some_D: "find P xs = Some x \<Longrightarrow> x \<in> set xs \<and> P x"
  by (induction xs) (auto split: if_splits)

lemma processPR_post:
  assumes "p \<in> set (fst (processPR cfg env t r pr))"
  shows "\<exists>h u revs cs.
           html_url pr = Some h \<and> h \<noteq> [] \<and> repository_url pr = Some u \<and> u \<noteq> [] \<and>
           reviewsOrEvents env pr = Inr revs \<and>
           (\<exists>review \<in> set revs. isRecentApproval cfg env t review) \<and>
           getPullRequestComments env (repoFullNameOf u) (number pr) = Inr cs \<and>
           \<not> memeAlreadyPosted cs \<and>
           p = \<lparr>post_repo = repoFullNameOf u, post_number = number pr,
                post_body = ''![Meme]('' @
                  (case getRandomMeme r of Some m \<Rightarrow> m | None \<Rightarrow> ''undefined'') @ '')''\<rparr>"
proof -
  from assms have g: "truthy (html_url pr)" "truthy (repository_url pr)"
    by (auto simp: processPR_def split: if_splits)
  then obtain h u where hu: "html_url pr = Some h" "h \<noteq> []" "repository_url pr = Some u" "u \<noteq> []"
    by (auto simp: truthy_def split: option.splits)
  from assms g have b: "p \<in> set (fst (processPRBody cfg env t r pr))"
    by (auto simp: processPR_def split: prod.splits sum.splits)
  then obtain revs where revs: "reviewsOrEvents env pr = Inr revs"
    by (auto simp: processPRBody_def split: sum.splits)
  with b obtain a where a: "find (isRecentApproval cfg env t) revs = Some a"
    by (auto simp: processPRBody_def split: option.splits)
  with b revs hu obtain cs where cs: "getPullRequestComments env (repoFullNameOf u) (number pr) = Inr cs"
    by (auto simp: processPRBody_def Let_def split: sum.splits)
  with b revs hu a have nm: "\<not> memeAlreadyPosted cs"
    by (auto simp: processPRBody_def Let_def split: if_splits)
  with b revs hu a cs have "p \<in> set (fst (addMemeComment env (repoFullNameOf u) (number pr)
      (case getRandomMeme r of Some m \<Rightarrow> m | None \<Rightarrow> ''undefined'')))"
    by (simp add: processPRBody_def Let_def)
  then have "p = \<lparr>post_repo = repoFullNameOf u, post_number = number pr,
                post_body = ''![Meme]('' @
                  (case getRandomMeme r of Some m \<Rightarrow> m | None \<Rightarrow> ''undefined'') @ '')''\<rparr>"
    by (simp add: fst_addMemeComment)
  with hu revs cs nm find_Some_D[OF a] show ?thesis by blast
qed

lemma checkApprovedPRs_post:
  assumes "checkApprovedPRs cfg env s = (res, s', posts)" and "p \<in> set posts"
  shows "\<exists>repoPRs i. trackApprovedRepositories env s = Inr s' \<and>
           getPullRequestsForRepos env (filter (passesOrgFilter cfg) (approvedRepos s')) = Inr repoPRs \<and>
           i < length repoPRs \<and>
           p \<in> set (fst (processPR cfg env (subMinutes (now env) 5) (random env i) (repoPRs ! i)))"
proof -
  from assms obtain s1 where s1: "trackApprovedRepositories env s = Inr s1"
    by (auto simp: checkApprovedPRs_def split: sum.splits)
  with assms obtain repoPRs where
    prs: "getPullRequestsForRepos env (filter (passesOrgFilter cfg) (approvedRepos s1)) = Inr repoPRs"
    by (auto simp: checkApprovedPRs_def Let_def split: sum.splits)
  from assms s1 prs have eq: "s' = s1"
    "posts = fst (all_p (map (\<lambda>(i, pr). processPR cfg env (subMinutes (now env) 5) (random env i) pr)
                              (enumerate 0 repoPRs)))"
    by (auto simp: checkApprovedPRs_def Let_def split: prod.splits)
  with assms(2) obtain x where x: "x \<in> set (enumerate 0 repoPRs)"
    "p \<in> set (fst (case x of (i, pr) \<Rightarrow> processPR cfg env (subMinutes (now env) 5) (random env i) pr))"
    by (auto simp: fst_all_p)
  obtain i pr where ipr: "x = (i, pr)" by (cases x)
  with x(1) have "i < length repoPRs" "pr = repoPRs ! i"
    by (auto simp: in_set_enumerate_eq)
  with x(2) ipr s1 prs eq show ?thesis by auto
qed











lemma set_trackOne:
  "set (trackOne repos pr) = set repos \<union> searchRepoNames [pr]"
  by (auto simp: trackOne_def searchRepoNames_def truthy_def set_add_def split: option.splits)

lemma searchRepoNames_append:
  "searchRepoNames (xs @ ys) = searchRepoNames xs \<union> searchRepoNames ys"
  by (auto simp: searchRepoNames_def)

lemma set_foldl_trackOne:
  "set (foldl trackOne repos items) = set repos \<union> searchRepoNames items"
proof (induction items arbitrary: repos)
  case Nil
  show ?case by (simp add: searchRepoNames_def)
next
  case (Cons pr items)
  have "searchRepoNames (pr # items) = searchRepoNames [pr] \<union> searchRepoNames items"
    using searchRepoNames_append[of "[pr]" items] by simp
  with Cons show ?case by (auto simp: set_trackOne)
qed

lemma checkApprovedPRs_service:
  "trackApprovedRepositories env s = Inr s1 \<Longrightarrow> fst (snd (checkApprovedPRs cfg env s)) = s1"
  by (simp add: checkApprovedPRs_def Let_def split: sum.splits prod.splits)

text \<open>
  C2, as the code has it. The set is created empty once, with the service, and
  \<^verbatim>\<open>trackApprovedRepositories\<close> only adds to it: after a successful search the set
  holds exactly what it held before the call together with the identifiers of the
  search entries that have a non-empty repository reference, and it is the service
  state the cycle leaves behind. It is therefore the set of that cycle's
  identifiers if and only if all it held before is among them, as it is from the
  new service (the first cycle).
\<close>

theorem repository_set_accumulates:
  assumes "search_issues env = Inr items"
  shows "\<exists>s' s0. trackApprovedRepositories env s = Inr s' \<and>
              fst (snd (checkApprovedPRs cfg env s)) = s' \<and>
              set (approvedRepos s') = set (approvedRepos s) \<union> searchRepoNames items \<and>
              (set (approvedRepos s') = searchRepoNames items) =
                (set (approvedRepos s) \<subseteq> searchRepoNames items) \<and>
              trackApprovedRepositories env new_Service = Inr s0 \<and>
              set (approvedRepos s0) = searchRepoNames items"
proof -
  let ?s' = "s\<lparr>approvedRepos := foldl trackOne (approvedRepos s) items\<rparr>"
  let ?s0 = "new_Service\<lparr>approvedRepos := foldl trackOne (approvedRepos new_Service) items\<rparr>"
  from assms have t: "trackApprovedRepositories env s = Inr ?s'"
    and t0: "trackApprovedRepositories env new_Service = Inr ?s0"
    by (simp_all add: trackApprovedRepositories_def)
  have a: "set (approvedRepos ?s') = set (approvedRepos s) \<union> searchRepoNames items"
    by (simp add: set_foldl_trackOne)
  then have e: "(set (approvedRepos ?s') = searchRepoNames items) =
                (set (approvedRepos s) \<subseteq> searchRepoNames items)"
    by blast
  have b: "set (approvedRepos ?s0) = searchRepoNames items"
    by (simp add: new_Service_def set_foldl_trackOne)
  from t t0 a e b checkApprovedPRs_service[OF t] show ?thesis by blast
qed

lemma second_repo: "repoFullNameOf ''https://api.github.com/repos/orgB/repo2'' = ''orgB/repo2''"
  by (simp add: repoFullNameOf_def)

lemma second_names: "searchRepoNames [second_pr] = {''orgB/repo2''}"
  by (simp add: searchRepoNames_def second_pr_def second_repo)

lemma second_track:
  "trackApprovedRepositories second_env \<lparr>approvedRepos = [''orgA/repo1'']\<rparr> =
     Inr \<lparr>approvedRepos = [''orgA/repo1'', ''orgB/repo2'']\<rparr>"
  by (simp add: trackApprovedRepositories_def second_env_def example_env_def trackOne_def
      second_pr_def truthy_def set_add_def second_repo)

text \<open>
  C2 as stated fails: after a first cycle whose search finds \<^verbatim>\<open>orgA/repo1\<close>, a second
  cycle whose search finds only \<^verbatim>\<open>orgB/repo2\<close> leaves both identifiers in the set.
\<close>

theorem repository_set_rebuilt_counterexample:
  "search_issues second_env = Inr [second_pr] \<and>
   fst (snd (checkApprovedPRs example_cfg second_env
               (fst (snd (checkApprovedPRs example_cfg example_env new_Service))))) =
     \<lparr>approvedRepos = [''orgA/repo1'', ''orgB/repo2'']\<rparr> \<and>
   set (approvedRepos (fst (snd (checkApprovedPRs example_cfg second_env
               (fst (snd (checkApprovedPRs example_cfg example_env new_Service))))))) \<noteq>
     searchRepoNames [second_pr]"
proof -
  have a: "search_issues second_env = Inr [second_pr]"
    by (simp add: second_env_def example_env_def)
  have b: "fst (snd (checkApprovedPRs example_cfg second_env
               (fst (snd (checkApprovedPRs example_cfg example_env new_Service))))) =
     \<lparr>approvedRepos = [''orgA/repo1'', ''orgB/repo2'']\<rparr>"
    by (simp add: example_cycle checkApprovedPRs_service[OF second_track])
  have c: "set (approvedRepos \<lparr>approvedRepos = [''orgA/repo1'', ''orgB/repo2'']\<rparr>) \<noteq>
     searchRepoNames [second_pr]"
    by (simp add: second_names)
  from a b c show ?thesis by simp
qed

theorem repository_set_accumulates_witness:
  "search_issues second_env = Inr [second_pr] \<and>
   (\<exists>s'. trackApprovedRepositories second_env \<lparr>approvedRepos = [''orgA/repo1'']\<rparr> = Inr s' \<and>
         set (approvedRepos s') = {''orgA/repo1'', ''orgB/repo2''})"
proof -
  have h: "search_issues second_env = Inr [second_pr]"
    by (simp add: second_env_def example_env_def)
  from repository_set_accumulates[OF h, of "\<lparr>approvedRepos = [''orgA/repo1'']\<rparr>" example_cfg] h
  show ?thesis by (auto simp: second_names)
qed

lemma processPRBody_cong:
  assumes "reviewsOrEvents env' pr = reviewsOrEvents env pr"
    and "parseISO env' = parseISO env" and "comments env' = comments env"
    and "post_comment env' = post_comment env"
  shows "processPRBody cfg env' t r pr = processPRBody cfg env t r pr"
proof -
  have a: "isRecentApproval cfg env' t = isRecentApproval cfg env t"
    using assms(2) by (simp add: isRecentApproval_def fun_eq_iff)
  have b: "getPullRequestComments env' = getPullRequestComments env"
    using assms(3) by (simp add: getPullRequestComments_def fun_eq_iff)
  have c: "addMemeComment env' = addMemeComment env"
    using assms(4) by (simp add: addMemeComment_def fun_eq_iff)
  show ?thesis unfolding processPRBody_def assms(1) a b c ..
qed

lemma processPR_cong:
  assumes "reviewsOrEvents env' pr = reviewsOrEvents env pr"
    and "parseISO env' = parseISO env" and "comments env' = comments env"
    and "post_comment env' = post_comment env"
  shows "processPR cfg env' t r pr = processPR cfg env t r pr"
  using processPRBody_cong[OF assms] by (simp add: processPR_def)

lemma reviewsOrEvents_eq:
  assumes "repository_url pr = Some u"
  shows "reviewsOrEvents env pr =
     (case getPullRequestReviews env (html_url pr) of
        Inr revs \<Rightarrow> if revs = [] then getPullRequestEvents env (repoFullNameOf u) (number pr)
                    else Inr revs
      | Inl e \<Rightarrow> reviewsCatch e)"
  using assms getPullRequestEvents_Inr[of env "repoFullNameOf u" "number pr"]
  by (auto simp: reviewsOrEvents_def then_p_def catch_p_def split: sum.splits)

lemma getPullRequestEvents_reviews_update:
  "getPullRequestEvents (env\<lparr>reviews := f\<rparr>) = getPullRequestEvents env"
  by (simp add: getPullRequestEvents_def fun_eq_iff)

text \<open>
  C5. For a pull request with both reference fields whose reviews request returns
  the empty list, the review records are the \<^verbatim>\<open>reviewed\<close> events of the events
  response, each as the record of its state, its actor and its creation time, the
  other events dropped. The pull request is then processed exactly as it would be
  had the reviews endpoint returned these records as native reviews.
\<close>

theorem events_fallback:
  assumes "html_url pr = Some h" and "h \<noteq> []" and "repository_url pr = Some u"
    and "reviews env h = Inr []"
    and "events env (repoFullNameOf u) (number pr) = Inr evs"
  shows "reviewsOrEvents env pr =
           Inr (map (\<lambda>ev. \<lparr>Review.state = Event.state ev, user = actor ev,
                            submitted_at = created_at ev\<rparr>)
                  (filter (\<lambda>ev. event ev = ''reviewed'') evs)) \<and>
         processPR cfg env t r pr =
           processPR cfg
             (env\<lparr>reviews := (reviews env)
                (h := Inr (map (\<lambda>ev. \<lparr>Review.state = Event.state ev, user = actor ev,
                                       submitted_at = created_at ev\<rparr>)
                             (filter (\<lambda>ev. event ev = ''reviewed'') evs)))\<rparr>) t r pr"
proof -
  let ?synth = "map (\<lambda>ev. \<lparr>Review.state = Event.state ev, user = actor ev,
                            submitted_at = created_at ev\<rparr>)
                  (filter (\<lambda>ev. event ev = ''reviewed'') evs)"
  let ?env' = "env\<lparr>reviews := (reviews env)(h := Inr ?synth)\<rparr>"
  have ev: "getPullRequestEvents env (repoFullNameOf u) (number pr) = Inr ?synth"
    using assms(5) by (simp add: getPullRequestEvents_def)
  have r: "getPullRequestReviews env (html_url pr) = Inr []"
    using assms(1,2,4) by (simp add: getPullRequestReviews_cases)
  have r': "getPullRequestReviews ?env' (html_url pr) = Inr ?synth"
    using assms(1,2) by (simp add: getPullRequestReviews_cases)
  have a: "reviewsOrEvents env pr = Inr ?synth"
    using r ev by (simp add: reviewsOrEvents_eq[OF assms(3)])
  have b: "reviewsOrEvents ?env' pr = Inr ?synth"
    using r' ev by (simp add: reviewsOrEvents_eq[OF assms(3)] getPullRequestEvents_reviews_update)
  have "processPR cfg ?env' t r pr = processPR cfg env t r pr"
    by (rule processPR_cong) (simp_all add: a b)
  with a show ?thesis by simp
qed

theorem events_fallback_witness:
  "html_url example_pr = Some ''https://github.com/orgA/repo1/pull/42'' \<and>
   repository_url example_pr = Some ''https://api.github.com/repos/orgA/repo1'' \<and>
   reviews fallback_env ''https://github.com/orgA/repo1/pull/42'' = Inr [] \<and>
   events fallback_env (repoFullNameOf ''https://api.github.com/repos/orgA/repo1'') (number example_pr)
     = Inr example_events \<and>
   reviewsOrEvents fallback_env example_pr = Inr [example_review] \<and>
   processPR example_cfg fallback_env (subMinutes (now fallback_env) 5) (1 / 2) example_pr =
     processPR example_cfg
       (fallback_env\<lparr>reviews := (reviews fallback_env)
           (''https://github.com/orgA/repo1/pull/42'' := Inr [example_review])\<rparr>)
       (subMinutes (now fallback_env) 5) (1 / 2) example_pr"
proof -
  have h1: "html_url example_pr = Some ''https://github.com/orgA/repo1/pull/42''"
    and h3: "repository_url example_pr = Some ''https://api.github.com/repos/orgA/repo1''"
    by (simp_all add: example_pr_def)
  have h2: "''https://github.com/orgA/repo1/pull/42'' \<noteq> []" by simp
  have h5: "reviews fallback_env ''https://github.com/orgA/repo1/pull/42'' = Inr []"
    by (simp add: fallback_env_def)
  have h6: "events fallback_env (repoFullNameOf ''https://api.github.com/repos/orgA/repo1'')
      (number example_pr) = Inr example_events"
    by (simp add: fallback_env_def)
  have s: "map (\<lambda>ev. \<lparr>Review.state = Event.state ev, user = actor ev,
                            submitted_at = created_at ev\<rparr>)
                  (filter (\<lambda>ev. event ev = ''reviewed'') example_events) = [example_review]"
    by (simp add: example_events_def example_review_def)
  from events_fallback[OF h1 h2 h3 h5 h6, of example_cfg
      "subMinutes (now fallback_env) 5" "1 / 2"] h1 h3 h5 h6
  show ?thesis unfolding s by (elim conjE, intro conjI) assumption+
qed

text \<open>
  C6. A 404 of the reviews endpoint makes \<^verbatim>\<open>getPullRequestReviews\<close> return the empty
  list, and the pull request is processed exactly as one whose reviews endpoint
  returned an empty list.
\<close>

theorem reviews_404_is_empty:
  assumes "html_url pr = Some h" and "h \<noteq> []"
    and "reviews env h = Inl e" and "status e = Some 404"
  shows "getPullRequestReviews env (html_url pr) = Inr [] \<and>
         processPR cfg env t r pr =
           processPR cfg (env\<lparr>reviews := (reviews env)(h := Inr [])\<rparr>) t r pr"
proof -
  let ?env' = "env\<lparr>reviews := (reviews env)(h := Inr [])\<rparr>"
  have r: "getPullRequestReviews env (html_url pr) = Inr []"
    using assms(1,2,3) by (simp add: getPullRequestReviews_cases)
  have r': "getPullRequestReviews ?env' (html_url pr) = Inr []"
    using assms(1,2) by (simp add: getPullRequestReviews_cases)
  have e: "getPullRequestEvents ?env' = getPullRequestEvents env"
    by (rule getPullRequestEvents_reviews_update)
  have "reviewsOrEvents ?env' pr = reviewsOrEvents env pr"
    unfolding reviewsOrEvents_def r r' e ..
  then have "processPR cfg ?env' t r pr = processPR cfg env t r pr"
    by (rule processPR_cong) simp_all
  with r show ?thesis by simp
qed

theorem reviews_404_is_empty_witness:
  "html_url example_pr = Some ''https://github.com/orgA/repo1/pull/42'' \<and>
   reviews (fallback_env\<lparr>reviews := (\<lambda>url. Inl notFound)\<rparr>) ''https://github.com/orgA/repo1/pull/42''
     = Inl notFound \<and>
   status notFound = Some 404 \<and>
   getPullRequestReviews (fallback_env\<lparr>reviews := (\<lambda>url. Inl notFound)\<rparr>) (html_url example_pr) = Inr [] \<and>
   processPR example_cfg (fallback_env\<lparr>reviews := (\<lambda>url. Inl notFound)\<rparr>)
       (subMinutes (now fallback_env) 5) (1 / 2) example_pr =
     processPR example_cfg
       (fallback_env\<lparr>reviews := (\<lambda>url. Inl notFound)\<rparr>
          \<lparr>reviews := (reviews (fallback_env\<lparr>reviews := (\<lambda>url. Inl notFound)\<rparr>))
             (''https://github.com/orgA/repo1/pull/42'' := Inr [])\<rparr>)
       (subMinutes (now fallback_env) 5) (1 / 2) example_pr"
proof -
  have h1: "html_url example_pr = Some ''https://github.com/orgA/repo1/pull/42''"
    by (simp add: example_pr_def)
  have h2: "''https://github.com/orgA/repo1/pull/42'' \<noteq> []" by simp
  have h3: "reviews (fallback_env\<lparr>reviews := (\<lambda>url. Inl notFound)\<rparr>)
      ''https://github.com/orgA/repo1/pull/42'' = Inl notFound" by simp
  have h4: "status notFound = Some 404" by (simp add: notFound_def)
  from reviews_404_is_empty[OF h1 h2 h3 h4, of example_cfg
      "subMinutes (now fallback_env) 5" "1 / 2"] h1 h3 h4
  show ?thesis by (elim conjE, intro conjI) assumption+
qed

lemma getPullRequestsForRepos_fails:
  "\<exists>repo \<in> set repoNames. isl (pulls env repo) \<Longrightarrow> isl (getPullRequestsForRepos env repoNames)"
proof (induction repoNames)
  case Nil
  then show ?case by simp
next
  case (Cons a rest)
  show ?case
  proof (cases "pulls env a")
    case (Inl e)
    then show ?thesis by simp
  next
    case (Inr prs)
    with Cons.prems have "\<exists>repo \<in> set rest. isl (pulls env repo)" by auto
    then have "isl (getPullRequestsForRepos env rest)" by (rule Cons.IH)
    then obtain e where "getPullRequestsForRepos env rest = Inl e" by (auto simp: isl_def)
    with Inr show ?thesis by simp
  qed
qed

lemma getPullRequestsForRepos_concat:
  "\<forall>repo \<in> set repoNames. \<not> isl (pulls env repo) \<Longrightarrow>
     getPullRequestsForRepos env repoNames =
       Inr (concat (map (\<lambda>repo. projr (pulls env repo)) repoNames))"
  by (induction repoNames) (auto split: sum.splits)

text \<open>
  C7. When the open-pulls request of some repository of the input fails,
  \<^verbatim>\<open>getPullRequestsForRepos\<close> fails, returning no pull request; when every request
  succeeds, the result is the concatenation of the responses in the order of the
  input.
\<close>

theorem pulls_batch_all_or_nothing:
  "((\<exists>repo \<in> set repoNames. isl (pulls env repo)) \<longrightarrow>
      isl (getPullRequestsForRepos env repoNames)) \<and>
   ((\<forall>repo \<in> set repoNames. \<not> isl (pulls env repo)) \<longrightarrow>
      getPullRequestsForRepos env repoNames =
        Inr (concat (map (\<lambda>repo. projr (pulls env repo)) repoNames)))"
  using getPullRequestsForRepos_fails getPullRequestsForRepos_concat by blast

theorem pulls_batch_all_or_nothing_witness:
  "isl (pulls failing_pulls_env ''orgA/repo2'') \<and>
   isl (getPullRequestsForRepos failing_pulls_env [''orgA/repo1'', ''orgA/repo2'', ''orgA/repo3'']) \<and>
   \<not> isl (pulls failing_pulls_env ''orgA/repo1'') \<and>
   \<not> isl (pulls failing_pulls_env ''orgA/repo3'') \<and>
   getPullRequestsForRepos failing_pulls_env [''orgA/repo1'', ''orgA/repo3''] =
     Inr [example_pr, example_pr]"
proof -
  have f: "isl (pulls failing_pulls_env ''orgA/repo2'')"
    and g1: "\<not> isl (pulls failing_pulls_env ''orgA/repo1'')"
    and g3: "\<not> isl (pulls failing_pulls_env ''orgA/repo3'')"
    by (simp_all add: failing_pulls_env_def)
  from f have a: "\<exists>repo \<in> set [''orgA/repo1'', ''orgA/repo2'', ''orgA/repo3''].
      isl (pulls failing_pulls_env repo)" by simp
  from g1 g3 have b: "\<forall>repo \<in> set [''orgA/repo1'', ''orgA/repo3''].
      \<not> isl (pulls failing_pulls_env repo)" by simp
  have c: "concat (map (\<lambda>repo. projr (pulls failing_pulls_env repo)) [''orgA/repo1'', ''orgA/repo3''])
      = [example_pr, example_pr]"
    by (simp add: failing_pulls_env_def)
  from pulls_batch_all_or_nothing[of "[''orgA/repo1'', ''orgA/repo2'', ''orgA/repo3'']" failing_pulls_env] a
  have d: "isl (getPullRequestsForRepos failing_pulls_env [''orgA/repo1'', ''orgA/repo2'', ''orgA/repo3''])"
    by blast
  from pulls_batch_all_or_nothing[of "[''orgA/repo1'', ''orgA/repo3'']" failing_pulls_env] b
  have "getPullRequestsForRepos failing_pulls_env [''orgA/repo1'', ''orgA/repo3''] =
      Inr (concat (map (\<lambda>repo. projr (pulls failing_pulls_env repo)) [''orgA/repo1'', ''orgA/repo3'']))"
    by blast
  with c have e: "getPullRequestsForRepos failing_pulls_env [''orgA/repo1'', ''orgA/repo3''] =
     Inr [example_pr, example_pr]" by simp
  from f d g1 g3 e show ?thesis by (intro conjI)
qed

lemma addMemeComment_post_update:
  "addMemeComment (env\<lparr>post_comment := f\<rparr>) = addMemeComment env"
  by (simp add: addMemeComment_def fun_eq_iff Let_def split: sum.splits)

lemma getPullRequestsForRepos_post_update:
  "getPullRequestsForRepos (env\<lparr>post_comment := f\<rparr>) repoNames = getPullRequestsForRepos env repoNames"
  by (induction repoNames) (auto split: sum.splits)

lemma processPR_post_update:
  "processPR cfg (env\<lparr>post_comment := f\<rparr>) t r pr = processPR cfg env t r pr"
proof -
  have a1: "getPullRequestReviews (env\<lparr>post_comment := f\<rparr>) = getPullRequestReviews env"
    by (simp add: getPullRequestReviews_cases fun_eq_iff split: option.splits)
  have a2: "getPullRequestEvents (env\<lparr>post_comment := f\<rparr>) = getPullRequestEvents env"
    by (simp add: getPullRequestEvents_def fun_eq_iff)
  have a: "reviewsOrEvents (env\<lparr>post_comment := f\<rparr>) pr = reviewsOrEvents env pr"
    unfolding reviewsOrEvents_def a1 a2 ..
  have b: "isRecentApproval cfg (env\<lparr>post_comment := f\<rparr>) t = isRecentApproval cfg env t"
    by (simp add: isRecentApproval_def fun_eq_iff)
  have c: "getPullRequestComments (env\<lparr>post_comment := f\<rparr>) = getPullRequestComments env"
    by (simp add: getPullRequestComments_def fun_eq_iff)
  show ?thesis
    unfolding processPR_def processPRBody_def a b c addMemeComment_post_update ..
qed

lemma checkApprovedPRs_post_update:
  "checkApprovedPRs cfg (env\<lparr>post_comment := f\<rparr>) s = checkApprovedPRs cfg env s"
proof -
  have a: "trackApprovedRepositories (env\<lparr>post_comment := f\<rparr>) s = trackApprovedRepositories env s"
    by (simp add: trackApprovedRepositories_def)
  have b: "now (env\<lparr>post_comment := f\<rparr>) = now env" "random (env\<lparr>post_comment := f\<rparr>) = random env"
    by simp_all
  show ?thesis
    unfolding checkApprovedPRs_def a b getPullRequestsForRepos_post_update processPR_post_update ..
qed

text \<open>
  C8. \<^verbatim>\<open>addMemeComment\<close> always returns normally, having issued exactly one
  \<^verbatim>\<open>POST\<close>, also when that \<^verbatim>\<open>POST\<close> fails; the processing of a pull request never
  rejects; and what a whole cycle returns, keeps and posts does not depend on the
  outcome of any \<^verbatim>\<open>POST\<close>.
\<close>

theorem addMemeComment_swallows_failure:
  "snd (addMemeComment env repo n url) = Inr () \<and>
   length (fst (addMemeComment env repo n url)) = 1 \<and>
   (post_comment env repo n (''![Meme]('' @ url @ '')'') = Inl e \<longrightarrow>
      addMemeComment env repo n url =
        ([\<lparr>post_repo = repo, post_number = n, post_body = ''![Meme]('' @ url @ '')''\<rparr>], Inr ())) \<and>
   snd (processPR cfg env t r pr) = Inr () \<and>
   checkApprovedPRs cfg (env\<lparr>post_comment := f\<rparr>) s = checkApprovedPRs cfg env s"
proof -
  have "addMemeComment env repo n url =
        ([\<lparr>post_repo = repo, post_number = n, post_body = ''![Meme]('' @ url @ '')''\<rparr>], Inr ())"
    using fst_addMemeComment[of env repo n url] snd_addMemeComment[of env repo n url]
    by (simp add: prod_eq_iff)
  then show ?thesis
    by (simp add: snd_processPR checkApprovedPRs_post_update)
qed

theorem addMemeComment_swallows_failure_witness:
  "post_comment (example_env\<lparr>post_comment := (\<lambda>repo n b. Inl serverError)\<rparr>) ''orgA/repo1'' 42
      (''![Meme]('' @ ''https://i.imgflip.com/8qwq96.jpg'' @ '')'') = Inl serverError \<and>
   addMemeComment (example_env\<lparr>post_comment := (\<lambda>repo n b. Inl serverError)\<rparr>) ''orgA/repo1'' 42
      ''https://i.imgflip.com/8qwq96.jpg'' = ([example_post], Inr ()) \<and>
   checkApprovedPRs example_cfg (example_env\<lparr>post_comment := (\<lambda>repo n b. Inl serverError)\<rparr>) new_Service =
     (Inr (), \<lparr>approvedRepos = [''orgA/repo1'']\<rparr>, [example_post])"
proof -
  let ?env = "example_env\<lparr>post_comment := (\<lambda>repo n b. Inl serverError)\<rparr>"
  have h: "post_comment ?env ''orgA/repo1'' 42
      (''![Meme]('' @ ''https://i.imgflip.com/8qwq96.jpg'' @ '')'') = Inl serverError" by simp
  note t = addMemeComment_swallows_failure[of ?env "''orgA/repo1''" 42
      "''https://i.imgflip.com/8qwq96.jpg''" serverError example_cfg 0 0 example_pr
      "\<lambda>repo n b. Inl serverError" new_Service]
  from t h have a: "addMemeComment ?env ''orgA/repo1'' 42 ''https://i.imgflip.com/8qwq96.jpg'' =
      ([example_post], Inr ())"
    by (simp add: example_post_def)
  from addMemeComment_swallows_failure[of example_env "''orgA/repo1''" 42
      "''https://i.imgflip.com/8qwq96.jpg''" serverError example_cfg 0 0 example_pr
      "\<lambda>repo n b. Inl serverError" new_Service]
  have "checkApprovedPRs example_cfg ?env new_Service =
      checkApprovedPRs example_cfg example_env new_Service" by blast
  then have b: "checkApprovedPRs example_cfg ?env new_Service =
     (Inr (), \<lparr>approvedRepos = [''orgA/repo1'']\<rparr>, [example_post])"
    by (simp add: example_cycle example_post_def)
  from h a b show ?thesis by (intro conjI)
qed

lemma length_memeUrls: "length memeUrls = 8"
  by (simp add: memeUrls_def)

lemma getRandomMeme_in_catalog:
  assumes "0 \<le> r" and "r < 1"
  shows "\<exists>m \<in> set memeUrls. getRandomMeme r = Some m"
proof -
  have "0 \<le> r * 8" using assms(1) by simp
  then have lo: "0 \<le> \<lfloor>r * 8\<rfloor>" by simp
  have "r * 8 < 8" using assms(2) by simp
  then have hi: "\<lfloor>r * 8\<rfloor> < 8" by (simp add: floor_less_iff)
  from lo hi have "nat \<lfloor>r * 8\<rfloor> < length memeUrls"
    unfolding length_memeUrls by linarith
  then have "memeUrls ! nat \<lfloor>r * 8\<rfloor> \<in> set memeUrls" by (rule nth_mem)
  moreover from lo hi have "getRandomMeme r = Some (memeUrls ! nat \<lfloor>r * 8\<rfloor>)"
    by (simp add: getRandomMeme_def Let_def length_memeUrls)
  ultimately show ?thesis by blast
qed

text \<open>
  C9. The catalog has 8 entries; \<^verbatim>\<open>getRandomMeme\<close> returns one of them for every
  value of \<^verbatim>\<open>Math.random()\<close>, which lies in \<open>[0, 1)\<close>; \<^verbatim>\<open>addMemeComment\<close> posts its
  argument between \<^verbatim>\<open>![Meme](\<close> and \<^verbatim>\<open>)\<close>; and so the body of every comment a cycle
  posts is a catalog URL wrapped that way.
\<close>

theorem meme_comment_body:
  "length memeUrls = 8 \<and>
   (0 \<le> r \<and> r < 1 \<longrightarrow> (\<exists>m \<in> set memeUrls. getRandomMeme r = Some m)) \<and>
   fst (addMemeComment env repo n url) =
     [\<lparr>post_repo = repo, post_number = n, post_body = ''![Meme]('' @ url @ '')''\<rparr>] \<and>
   ((\<forall>i. 0 \<le> random env i \<and> random env i < 1) \<and>
    checkApprovedPRs cfg env s = (res, s', posts) \<and> p \<in> set posts \<longrightarrow>
      (\<exists>m \<in> set memeUrls. post_body p = ''![Meme]('' @ m @ '')''))"
proof -
  have "\<exists>m \<in> set memeUrls. post_body p = ''![Meme]('' @ m @ '')''"
    if rnd: "\<forall>i. 0 \<le> random env i \<and> random env i < 1"
      and c: "checkApprovedPRs cfg env s = (res, s', posts)" and p: "p \<in> set posts"
  proof -
    from checkApprovedPRs_post[OF c p] obtain repoPRs i where
      "p \<in> set (fst (processPR cfg env (subMinutes (now env) 5) (random env i) (repoPRs ! i)))"
      by blast
    from processPR_post[OF this] obtain u where
      pq: "p = \<lparr>post_repo = repoFullNameOf u, post_number = number (repoPRs ! i),
                post_body = ''![Meme]('' @
                  (case getRandomMeme (random env i) of Some m \<Rightarrow> m | None \<Rightarrow> ''undefined'') @ '')''\<rparr>"
      by blast
    from rnd getRandomMeme_in_catalog[of "random env i"] obtain m where
      m: "m \<in> set memeUrls" "getRandomMeme (random env i) = Some m" by blast
    from pq m(2) have "post_body p = ''![Meme]('' @ m @ '')''" by simp
    with m(1) show ?thesis by blast
  qed
  then show ?thesis
    using length_memeUrls getRandomMeme_in_catalog[of r] fst_addMemeComment[of env repo n url]
    by blast
qed

theorem meme_comment_body_witness:
  "0 \<le> (1 / 2 :: real) \<and> (1 / 2 :: real) < 1 \<and>
   (\<exists>m \<in> set memeUrls. getRandomMeme (1 / 2) = Some m) \<and>
   (\<forall>i. 0 \<le> random example_env i \<and> random example_env i < 1) \<and>
   checkApprovedPRs example_cfg example_env new_Service =
     (Inr (), \<lparr>approvedRepos = [''orgA/repo1'']\<rparr>, [example_post]) \<and>
   example_post \<in> set [example_post] \<and>
   (\<exists>m \<in> set memeUrls. post_body example_post = ''![Meme]('' @ m @ '')'')"
proof -
  have r: "0 \<le> (1 / 2 :: real)" "(1 / 2 :: real) < 1" by simp_all
  have rnd: "\<forall>i. 0 \<le> random example_env i \<and> random example_env i < 1"
    by (simp add: example_env_def)
  have c: "checkApprovedPRs example_cfg example_env new_Service =
     (Inr (), \<lparr>approvedRepos = [''orgA/repo1'']\<rparr>, [example_post])"
    by (simp add: example_cycle example_post_def)
  have m: "example_post \<in> set [example_post]" by simp
  note t = meme_comment_body[of "1 / 2" example_env "''orgA/repo1''" 42 "[]" example_cfg
      new_Service "Inr ()" "\<lparr>approvedRepos = [''orgA/repo1'']\<rparr>" "[example_post]" example_post]
  from t r have a: "\<exists>m \<in> set memeUrls. getRandomMeme (1 / 2) = Some m" by blast
  from t rnd c m have b: "\<exists>m \<in> set memeUrls. post_body example_post = ''![Meme]('' @ m @ '')''"
    by blast
  from r a rnd c m b show ?thesis by (intro conjI)
qed

text \<open>
  C10. \<^verbatim>\<open>getPullRequestReviews\<close> always returns a list: the empty list for a missing
  or empty URL and for every failure of the request, whatever its status. A handler
  attached to its result is therefore never run, the \<^verbatim>\<open>catch\<close> of lines 139 to 147
  changes nothing for a pull request that has a repository reference, and a pull
  request whose reviews request fails gets the records of its events.
\<close>

theorem getPullRequestReviews_never_rejects:
  "(\<exists>revs. getPullRequestReviews env url = Inr revs) \<and>
   getPullRequestReviews env None = Inr [] \<and>
   getPullRequestReviews env (Some []) = Inr [] \<and>
   (reviews env h = Inl e \<longrightarrow> getPullRequestReviews env (Some h) = Inr []) \<and>
   catch_p (getPullRequestReviews env url) handler = getPullRequestReviews env url \<and>
   (repository_url pr = Some u \<longrightarrow>
      reviewsOrEvents env pr =
        then_p (getPullRequestReviews env (html_url pr))
          (\<lambda>rev. if length rev = 0
                 then getPullRequestEvents env (repoFullNameOf u) (number pr)
                 else Inr rev)) \<and>
   (html_url pr = Some h \<and> reviews env h = Inl e \<and> repository_url pr = Some u \<longrightarrow>
      reviewsOrEvents env pr = getPullRequestEvents env (repoFullNameOf u) (number pr))"
proof -
  obtain revs where revs: "getPullRequestReviews env url = Inr revs"
    using getPullRequestReviews_Inr by blast
  have a: "getPullRequestReviews env None = Inr []" "getPullRequestReviews env (Some []) = Inr []"
    by (simp_all add: getPullRequestReviews_cases)
  have b: "getPullRequestReviews env (Some h) = Inr []" if "reviews env h = Inl e"
    using that by (simp add: getPullRequestReviews_cases)
  have c: "catch_p (getPullRequestReviews env url) handler = getPullRequestReviews env url"
    using revs by (simp add: catch_p_def)
  have d: "reviewsOrEvents env pr =
        then_p (getPullRequestReviews env (html_url pr))
          (\<lambda>rev. if length rev = 0
                 then getPullRequestEvents env (repoFullNameOf u) (number pr)
                 else Inr rev)" if u: "repository_url pr = Some u"
  proof -
    obtain rs where rs: "getPullRequestReviews env (html_url pr) = Inr rs"
      using getPullRequestReviews_Inr by blast
    obtain es where es: "getPullRequestEvents env (repoFullNameOf u) (number pr) = Inr es"
      using getPullRequestEvents_Inr by blast
    show ?thesis
      by (simp add: reviewsOrEvents_eq[OF u] rs es then_p_def)
  qed
  have f: "reviewsOrEvents env pr = getPullRequestEvents env (repoFullNameOf u) (number pr)"
    if "html_url pr = Some h" "reviews env h = Inl e" "repository_url pr = Some u"
    using that by (simp add: reviewsOrEvents_eq getPullRequestReviews_cases)
  from revs a b c d f show ?thesis by blast
qed

theorem getPullRequestReviews_never_rejects_witness:
  "reviews failing_reviews_env ''https://github.com/orgA/repo1/pull/42'' = Inl serverError \<and>
   status serverError \<noteq> Some NOT_FOUND \<and>
   html_url example_pr = Some ''https://github.com/orgA/repo1/pull/42'' \<and>
   repository_url example_pr = Some ''https://api.github.com/repos/orgA/repo1'' \<and>
   getPullRequestReviews failing_reviews_env (Some ''https://github.com/orgA/repo1/pull/42'') = Inr [] \<and>
   reviewsOrEvents failing_reviews_env example_pr = Inr [example_review]"
proof -
  have h1: "reviews failing_reviews_env ''https://github.com/orgA/repo1/pull/42'' = Inl serverError"
    by (simp add: failing_reviews_env_def)
  have h2: "status serverError \<noteq> Some NOT_FOUND"
    by (simp add: serverError_def NOT_FOUND_def)
  have h3: "html_url example_pr = Some ''https://github.com/orgA/repo1/pull/42''"
    and h4: "repository_url example_pr = Some ''https://api.github.com/repos/orgA/repo1''"
    by (simp_all add: example_pr_def)
  note t = getPullRequestReviews_never_rejects[of failing_reviews_env
      "Some ''https://github.com/orgA/repo1/pull/42''" "''https://github.com/orgA/repo1/pull/42''"
      serverError reviewsCatch example_pr "''https://api.github.com/repos/orgA/repo1''"]
  from t h1 have a: "getPullRequestReviews failing_reviews_env
      (Some ''https://github.com/orgA/repo1/pull/42'') = Inr []" by blast
  from t h1 h3 h4 have "reviewsOrEvents failing_reviews_env example_pr =
      getPullRequestEvents failing_reviews_env
        (repoFullNameOf ''https://api.github.com/repos/orgA/repo1'') (number example_pr)"
    by blast
  then have b: "reviewsOrEvents failing_reviews_env example_pr = Inr [example_review]"
    by (simp add: getPullRequestEvents_def failing_reviews_env_def fallback_env_def
        example_events_def example_review_def)
  from h1 h2 h3 h4 a b show ?thesis by (intro conjI)
qed

text \<open>
  C3. The test of \<^verbatim>\<open>reviews.find\<close> accepts a review record if and only if its state
  is \<^verbatim>\<open>APPROVED\<close>, its reviewer is the configured user and its submission time is
  strictly after now minus five minutes. For an approval of the configured user,
  a submission at exactly now minus 5:00 is rejected, one at now minus 4:59 is
  accepted and one at now minus 5:01 is rejected.
\<close>

theorem approval_freshness_test:
  "(isRecentApproval cfg env (subMinutes (now env) 5) review \<longleftrightarrow>
      Review.state review = ''APPROVED'' \<and>
      username cfg = Some (login (user review)) \<and>
      (\<exists>t. parseISO env (submitted_at review) = Some t \<and> now env - 5 * 60 * 1000 < t))
   \<and> (Review.state review = ''APPROVED'' \<and> username cfg = Some (login (user review)) \<longrightarrow>
        (parseISO env (submitted_at review) = Some (now env - 5 * 60 * 1000) \<longrightarrow>
           \<not> isRecentApproval cfg env (subMinutes (now env) 5) review) \<and>
        (parseISO env (submitted_at review) = Some (now env - (4 * 60 + 59) * 1000) \<longrightarrow>
           isRecentApproval cfg env (subMinutes (now env) 5) review) \<and>
        (parseISO env (submitted_at review) = Some (now env - (5 * 60 + 1) * 1000) \<longrightarrow>
           \<not> isRecentApproval cfg env (subMinutes (now env) 5) review))"
  by (auto simp: isRecentApproval_def isAfter_def subMinutes_def split: option.splits)

theorem approval_freshness_test_witness:
  "Review.state (review_at ''2024-01-01T00:00:00Z'') = ''APPROVED'' \<and>
   username example_cfg = Some (login (user (review_at ''2024-01-01T00:00:00Z''))) \<and>
   parseISO boundary_env ''2024-01-01T00:00:00Z'' = Some (now boundary_env - 5 * 60 * 1000) \<and>
   \<not> isRecentApproval example_cfg boundary_env (subMinutes (now boundary_env) 5)
        (review_at ''2024-01-01T00:00:00Z'') \<and>
   parseISO boundary_env ''2024-01-01T00:00:01Z'' = Some (now boundary_env - (4 * 60 + 59) * 1000) \<and>
   isRecentApproval example_cfg boundary_env (subMinutes (now boundary_env) 5)
        (review_at ''2024-01-01T00:00:01Z'') \<and>
   parseISO boundary_env ''2023-12-31T23:59:59Z'' = Some (now boundary_env - (5 * 60 + 1) * 1000) \<and>
   \<not> isRecentApproval example_cfg boundary_env (subMinutes (now boundary_env) 5)
        (review_at ''2023-12-31T23:59:59Z'')"
proof -
  have s: "\<And>x. Review.state (review_at x) = ''APPROVED''"
    "\<And>x. username example_cfg = Some (login (user (review_at x)))"
    "\<And>x. submitted_at (review_at x) = x"
    by (simp_all add: review_at_def example_cfg_def)
  have p0: "parseISO boundary_env ''2024-01-01T00:00:00Z'' = Some (now boundary_env - 5 * 60 * 1000)"
    and p1: "parseISO boundary_env ''2024-01-01T00:00:01Z'' = Some (now boundary_env - (4 * 60 + 59) * 1000)"
    and p2: "parseISO boundary_env ''2023-12-31T23:59:59Z'' = Some (now boundary_env - (5 * 60 + 1) * 1000)"
    by (simp_all add: boundary_env_def example_env_def)
  have a: "\<not> isRecentApproval example_cfg boundary_env (subMinutes (now boundary_env) 5)
        (review_at ''2024-01-01T00:00:00Z'')"
    using approval_freshness_test[of example_cfg boundary_env "review_at ''2024-01-01T00:00:00Z''"]
      s p0 by simp
  have b: "isRecentApproval example_cfg boundary_env (subMinutes (now boundary_env) 5)
        (review_at ''2024-01-01T00:00:01Z'')"
    using approval_freshness_test[of example_cfg boundary_env "review_at ''2024-01-01T00:00:01Z''"]
      s p1 by simp
  have c: "\<not> isRecentApproval example_cfg boundary_env (subMinutes (now boundary_env) 5)
        (review_at ''2023-12-31T23:59:59Z'')"
    using approval_freshness_test[of example_cfg boundary_env "review_at ''2023-12-31T23:59:59Z''"]
      s p2 by simp
  from s(1)[of "''2024-01-01T00:00:00Z''"] s(2)[of "''2024-01-01T00:00:00Z''"] p0 a p1 b p2 c
  show ?thesis by (intro conjI)
qed

lemma takeWhile_until:
  "c \<notin> set xs \<Longrightarrow> takeWhile (\<lambda>d. d \<noteq> c) (xs @ c # ys) = xs"
  by (induction xs) auto

lemma prefix_slash:
  assumes "CHR ''/'' \<notin> set g" "CHR ''/'' \<notin> set org" "prefix (g @ ''/'') (org @ ''/'' @ x)"
  shows "g = org"
proof -
  from assms(3) obtain z where z: "org @ ''/'' @ x = g @ ''/'' @ z" by (auto simp: prefix_def)
  then have "takeWhile (\<lambda>c. c \<noteq> CHR ''/'') (org @ ''/'' @ x) = takeWhile (\<lambda>c. c \<noteq> CHR ''/'') (g @ ''/'' @ z)" by simp
  moreover have "takeWhile (\<lambda>c. c \<noteq> CHR ''/'') (org @ ''/'' @ x) = org"
    using assms(2) by (simp add: takeWhile_until)
  moreover have "takeWhile (\<lambda>c. c \<noteq> CHR ''/'') (g @ ''/'' @ z) = g"
    using assms(1) by (simp add: takeWhile_until)
  ultimately show ?thesis by simp
qed

lemma prefix_two_segments:
  assumes "CHR ''/'' \<notin> set org" and "CHR ''/'' \<notin> set x"
    and "prefix (g @ ''/'') (org @ ''/'' @ x)"
  shows "g = org"
proof -
  from assms(3) obtain z where z: "org @ CHR ''/'' # x = g @ CHR ''/'' # z"
    by (auto simp: prefix_def)
  then obtain w where "(org = g @ w \<and> w @ CHR ''/'' # x = CHR ''/'' # z) \<or>
      (org @ w = g \<and> CHR ''/'' # x = w @ CHR ''/'' # z)"
    by (auto simp: append_eq_append_conv2)
  then show ?thesis
  proof
    assume a: "org = g @ w \<and> w @ CHR ''/'' # x = CHR ''/'' # z"
    show ?thesis
    proof (cases w)
      case Nil
      with a show ?thesis by simp
    next
      case (Cons c w')
      with a have "c = CHR ''/''" by simp
      with Cons a assms(1) show ?thesis by simp
    qed
  next
    assume a: "org @ w = g \<and> CHR ''/'' # x = w @ CHR ''/'' # z"
    show ?thesis
    proof (cases w)
      case Nil
      with a show ?thesis by simp
    next
      case (Cons c w')
      with a have "x = w' @ CHR ''/'' # z" by simp
      with assms(2) show ?thesis by simp
    qed
  qed
qed

text \<open>
  C4. An identifier passes the organization filter if and only if some configured
  name followed by a slash is a prefix of it. For every configured list, a
  repository identifier \<open>org/x\<close>, owner and name without a slash, passes if and only
  if its owner \<open>org\<close> is an element of the list: a configured name that is a proper
  prefix or another part of the owner does not let it pass. The same holds for an
  identifier with further slashes after the owner when no configured name has a
  slash.
\<close>

theorem org_filter_exact_owner:
  "(passesOrgFilter cfg repoFullName \<longleftrightarrow>
      (\<exists>g \<in> set (orgs cfg). prefix (g @ ''/'') repoFullName)) \<and>
   (CHR ''/'' \<notin> set org \<and> CHR ''/'' \<notin> set x \<longrightarrow>
      (passesOrgFilter cfg (org @ ''/'' @ x) \<longleftrightarrow> org \<in> set (orgs cfg))) \<and>
   (CHR ''/'' \<notin> set org \<and> (\<forall>g \<in> set (orgs cfg). CHR ''/'' \<notin> set g) \<longrightarrow>
      (passesOrgFilter cfg (org @ ''/'' @ y) \<longleftrightarrow> org \<in> set (orgs cfg)))"
proof -
  have a: "passesOrgFilter cfg r \<longleftrightarrow> (\<exists>g \<in> set (orgs cfg). prefix (g @ ''/'') r)" for r
    by (simp add: passesOrgFilter_def startsWith_def list_ex_iff)
  have own: "passesOrgFilter cfg (org @ ''/'' @ v)" if "org \<in> set (orgs cfg)" for v
  proof -
    have "prefix (org @ ''/'') (org @ ''/'' @ v)" by simp
    with that show ?thesis unfolding a by blast
  qed
  have b: "passesOrgFilter cfg (org @ ''/'' @ x) \<longleftrightarrow> org \<in> set (orgs cfg)"
    if h: "CHR ''/'' \<notin> set org" "CHR ''/'' \<notin> set x"
  proof
    assume "passesOrgFilter cfg (org @ ''/'' @ x)"
    then obtain g where g: "g \<in> set (orgs cfg)" "prefix (g @ ''/'') (org @ ''/'' @ x)"
      unfolding a by blast
    from prefix_two_segments[OF h g(2)] g(1) show "org \<in> set (orgs cfg)" by simp
  next
    assume "org \<in> set (orgs cfg)"
    then show "passesOrgFilter cfg (org @ ''/'' @ x)" by (rule own)
  qed
  have c: "passesOrgFilter cfg (org @ ''/'' @ y) \<longleftrightarrow> org \<in> set (orgs cfg)"
    if h: "CHR ''/'' \<notin> set org" "\<forall>g \<in> set (orgs cfg). CHR ''/'' \<notin> set g"
  proof
    assume "passesOrgFilter cfg (org @ ''/'' @ y)"
    then obtain g where g: "g \<in> set (orgs cfg)" "prefix (g @ ''/'') (org @ ''/'' @ y)"
      unfolding a by blast
    with h prefix_slash[of g org y] show "org \<in> set (orgs cfg)" by auto
  next
    assume "org \<in> set (orgs cfg)"
    then show "passesOrgFilter cfg (org @ ''/'' @ y)" by (rule own)
  qed
  from a b c show ?thesis by blast
qed

theorem org_filter_exact_owner_witness:
  "CHR ''/'' \<notin> set ''orgA'' \<and> CHR ''/'' \<notin> set ''orgAB'' \<and> CHR ''/'' \<notin> set ''orgB'' \<and>
   CHR ''/'' \<notin> set ''repo1'' \<and>
   orgs example_cfg = [''orgA''] \<and>
   passesOrgFilter example_cfg (''orgA'' @ ''/'' @ ''repo1'') \<and>
   \<not> passesOrgFilter example_cfg (''orgAB'' @ ''/'' @ ''repo1'') \<and>
   orgs slash_cfg = [''orgA/repo1'', ''orgB''] \<and>
   \<not> passesOrgFilter slash_cfg (''orgA'' @ ''/'' @ ''repo1'') \<and>
   passesOrgFilter slash_cfg (''orgB'' @ ''/'' @ ''repo1'') \<and>
   passesOrgFilter example_cfg (''orgA'' @ ''/'' @ ''repo1/extra'')"
proof -
  have s: "CHR ''/'' \<notin> set ''orgA''" "CHR ''/'' \<notin> set ''orgAB''" "CHR ''/'' \<notin> set ''orgB''"
    "CHR ''/'' \<notin> set ''repo1''" by simp_all
  have o: "orgs example_cfg = [''orgA'']" "orgs slash_cfg = [''orgA/repo1'', ''orgB'']"
    by (simp_all add: example_cfg_def slash_cfg_def)
  have l: "\<forall>g \<in> set (orgs example_cfg). CHR ''/'' \<notin> set g" by (simp add: o)
  from org_filter_exact_owner[of example_cfg "[]" "''orgA''" "''repo1''" "[]"] s o
  have a: "passesOrgFilter example_cfg (''orgA'' @ ''/'' @ ''repo1'')" by simp
  from org_filter_exact_owner[of example_cfg "[]" "''orgAB''" "''repo1''" "[]"] s o
  have b: "\<not> passesOrgFilter example_cfg (''orgAB'' @ ''/'' @ ''repo1'')" by simp
  from org_filter_exact_owner[of slash_cfg "[]" "''orgA''" "''repo1''" "[]"] s o
  have c: "\<not> passesOrgFilter slash_cfg (''orgA'' @ ''/'' @ ''repo1'')" by simp
  from org_filter_exact_owner[of slash_cfg "[]" "''orgB''" "''repo1''" "[]"] s o
  have d: "passesOrgFilter slash_cfg (''orgB'' @ ''/'' @ ''repo1'')" by simp
  from org_filter_exact_owner[of example_cfg "[]" "''orgA''" "[]" "''repo1/extra''"] s l o
  have e: "passesOrgFilter example_cfg (''orgA'' @ ''/'' @ ''repo1/extra'')" by simp
  from s o a b c d e show ?thesis by (intro conjI)
qed

end
